theory Spec2Isabelle
  imports Complex_Main "HOL-Library.Product_Lexorder" "HOL-Library.Sublist" "HOL-Library.Multiset"
begin

section \<open>Calendar dates and timestamps\<close>

text \<open>
  A calendar date is (year, month, day), ordered lexicographically, which is the
  chronological order. A naive datetime adds hour and minute: the trade file's
  timestamps have minute resolution (format \<^verbatim>\<open>%d-%m-%Y %H:%M\<close>).
\<close>

type_synonym date = "nat \<times> nat \<times> nat"
type_synonym datetime = "date \<times> nat \<times> nat"

definition is_leap :: "nat \<Rightarrow> bool" where
  "is_leap y = (y mod 4 = 0 \<and> (y mod 100 \<noteq> 0 \<or> y mod 400 = 0))"

definition days_in_month :: "nat \<Rightarrow> nat \<Rightarrow> nat" where
  "days_in_month y m =
     (if m = 2 then (if is_leap y then 29 else 28)
      else if m = 4 \<or> m = 6 \<or> m = 9 \<or> m = 11 then 30 else 31)"

definition valid_date :: "date \<Rightarrow> bool" where
  "valid_date d = (case d of (y, m, dd) \<Rightarrow>
     1 \<le> y \<and> 1 \<le> m \<and> m \<le> 12 \<and> 1 \<le> dd \<and> dd \<le> days_in_month y m)"

definition prev_day :: "date \<Rightarrow> date" where
  "prev_day d = (case d of (y, m, dd) \<Rightarrow>
     if 1 < dd then (y, m, dd - 1)
     else if 1 < m then (y, m - 1, days_in_month y (m - 1))
     else (y - 1, 12, 31))"





subsection \<open>Parsing \<^verbatim>\<open>%d-%m-%Y %H:%M\<close>\<close>

definition is_digit :: "char \<Rightarrow> bool" where
  "is_digit c = (48 \<le> (of_char c :: nat) \<and> (of_char c :: nat) \<le> 57)"

definition digit_val :: "char \<Rightarrow> nat" where
  "digit_val c = of_char c - 48"

definition number :: "string \<Rightarrow> nat" where
  "number ds = foldl (\<lambda>n c. 10 * n + digit_val c) 0 ds"

text \<open>
  A field of the format: a run of digits of an admissible length, followed by the rest of
  the text. \<^verbatim>\<open>%d\<close>, \<^verbatim>\<open>%m\<close>, \<^verbatim>\<open>%H\<close> and
  \<^verbatim>\<open>%M\<close> take one or two digits, \<^verbatim>\<open>%Y\<close> exactly four.
\<close>

definition field :: "nat \<Rightarrow> nat \<Rightarrow> string \<Rightarrow> (nat \<times> string) option" where
  "field lo hi s =
     (let ds = takeWhile is_digit s in
      if lo \<le> length ds \<and> length ds \<le> hi then Some (number ds, dropWhile is_digit s)
      else None)"

definition expect :: "char \<Rightarrow> string \<Rightarrow> string option" where
  "expect c s = (case s of [] \<Rightarrow> None | x # xs \<Rightarrow> if x = c then Some xs else None)"

definition strptime :: "string \<Rightarrow> datetime option" where
  "strptime s =
     (case field 1 2 s of None \<Rightarrow> None | Some (dd, s1) \<Rightarrow>
      case expect CHR ''-'' s1 of None \<Rightarrow> None | Some s2 \<Rightarrow>
      case field 1 2 s2 of None \<Rightarrow> None | Some (m, s3) \<Rightarrow>
      case expect CHR ''-'' s3 of None \<Rightarrow> None | Some s4 \<Rightarrow>
      case field 4 4 s4 of None \<Rightarrow> None | Some (y, s5) \<Rightarrow>
      case expect CHR '' '' s5 of None \<Rightarrow> None | Some s6 \<Rightarrow>
      case field 1 2 s6 of None \<Rightarrow> None | Some (h, s7) \<Rightarrow>
      case expect CHR '':'' s7 of None \<Rightarrow> None | Some s8 \<Rightarrow>
      case field 1 2 s8 of None \<Rightarrow> None | Some (mi, s9) \<Rightarrow>
      if s9 = [] \<and> valid_date (y, m, dd) \<and> h \<le> 23 \<and> mi \<le> 59
      then Some ((y, m, dd), h, mi) else None)"

subsection \<open>From Asia/Kolkata to UTC\<close>

text \<open>
  \<^verbatim>\<open>tz_localize('Asia/Kolkata')\<close> attaches the zone's offset to the naive
  local time and \<^verbatim>\<open>tz_convert('UTC')\<close> moves the same instant to UTC. The zone
  has no daylight saving time and has been at +05:30 since 15 October 1945, so the
  conversion takes 330 minutes off the local wall clock.
\<close>

definition kolkata_offset :: nat where
  "kolkata_offset = 330"

definition tz_convert_utc :: "datetime \<Rightarrow> datetime" where
  "tz_convert_utc t = (case t of (d, h, mi) \<Rightarrow>
     let local = h * 60 + mi in
     if kolkata_offset \<le> local
     then (d, (local - kolkata_offset) div 60, (local - kolkata_offset) mod 60)
     else (prev_day d, (local + 1440 - kolkata_offset) div 60,
           (local + 1440 - kolkata_offset) mod 60))"

definition dt_date :: "datetime \<Rightarrow> date" where
  "dt_date t = fst t"

section \<open>Sentiment labels\<close>

text \<open>
  \<^verbatim>\<open>str(x).lower()\<close>: a missing cell is the float NaN, whose text is
  \<^verbatim>\<open>nan\<close>. Lower-casing acts on the ASCII capitals; the bytes of any other
  character are left as they are and are none of the letters searched for.
\<close>

definition lower_char :: "char \<Rightarrow> char" where
  "lower_char c =
     (if 65 \<le> (of_char c :: nat) \<and> (of_char c :: nat) \<le> 90
      then char_of ((of_char c :: nat) + 32) else c)"

definition lower :: "string \<Rightarrow> string" where
  "lower s = map lower_char s"

definition str :: "string option \<Rightarrow> string" where
  "str x = (case x of None \<Rightarrow> ''nan'' | Some s \<Rightarrow> s)"

fun starts_with :: "string \<Rightarrow> string \<Rightarrow> bool" where
  "starts_with [] s = True"
| "starts_with (p # ps) [] = False"
| "starts_with (p # ps) (c # cs) = (p = c \<and> starts_with ps cs)"

fun contains :: "string \<Rightarrow> string \<Rightarrow> bool" where
  "contains sub [] = (sub = [])"
| "contains sub (c # cs) = (starts_with sub (c # cs) \<or> contains sub cs)"

definition categorize_regime :: "string option \<Rightarrow> string" where
  "categorize_regime x =
     (let val = lower (str x) in
      if contains ''fear'' val then ''Fear''
      else if contains ''greed'' val then ''Greed''
      else ''Neutral'')"

section \<open>The two input tables and the derived tables\<close>

text \<open>
  A cell that \<^verbatim>\<open>read_csv\<close> found empty is \<open>None\<close>. The sentiment
  file's \<^verbatim>\<open>date\<close> and \<^verbatim>\<open>classification\<close> cells and the trade file's
  \<^verbatim>\<open>Account\<close> cell may be empty: the code counts the accounts that are present
  and replaces a count of zero, and it turns any classification into text first.
  Decimal numbers are rationals.
\<close>

record fg_raw =
  fg_date :: "string option"
  fg_value :: int
  fg_classification :: "string option"

record fg_row =
  fgr_date :: "string option"
  fgr_value :: int
  fgr_classification :: "string option"
  fgr_Date :: "date option"
  fgr_Regime :: string

record hd_raw =
  Account :: "string option"
  Timestamp_IST :: string
  Closed_PnL :: rat
  Fee :: rat
  Size_USD :: rat
  Crossed :: bool

record hd_row =
  hdr_Account :: "string option"
  hdr_Timestamp_IST :: string
  hdr_Closed_PnL :: rat
  hdr_Fee :: rat
  hdr_Size_USD :: rat
  hdr_Crossed :: bool
  Timestamp_IST_DT :: datetime
  Timestamp_UTC :: datetime
  Date :: date
  Net_PnL :: rat
  Is_Win :: bool
  Is_Loss :: bool
  Is_Taker :: bool

record daily_row =
  ds_Date :: date
  Daily_Total_Net_PnL :: rat
  Avg_Trade_Size :: "rat option"
  Total_Trades :: nat
  Unique_Accounts :: nat
  Winning_Trades :: nat
  Losing_Trades :: nat
  Taker_Trades :: nat
  Win_Rate :: rat
  Taker_Ratio :: rat

record merged_row =
  m_stats :: daily_row
  m_value :: int
  m_classification :: "string option"
  m_Regime :: string

definition m_Date :: "merged_row \<Rightarrow> date" where
  "m_Date r = ds_Date (m_stats r)"

datatype error = ValueError string

section \<open>The load\<close>

subsection \<open>Sentiment\<close>

text \<open>
  \<^verbatim>\<open>pd.to_datetime(df_fg['date'])\<close> is given no format; the reading of one date
  text is the parameter \<open>parse\<close>. An empty cell becomes NaT (\<open>None\<close>) without an
  error, a text that cannot be read raises.
\<close>

definition to_datetime_fg :: "(string \<Rightarrow> date option) \<Rightarrow> string option \<Rightarrow> error + date option" where
  "to_datetime_fg parse c =
     (case c of None \<Rightarrow> Inr None
      | Some s \<Rightarrow> (case parse s of None \<Rightarrow> Inl (ValueError s) | Some d \<Rightarrow> Inr (Some d)))"

fun traverse :: "('a \<Rightarrow> error + 'b) \<Rightarrow> 'a list \<Rightarrow> error + 'b list" where
  "traverse f [] = Inr []"
| "traverse f (x # xs) =
     (case f x of Inl e \<Rightarrow> Inl e
      | Inr y \<Rightarrow> (case traverse f xs of Inl e \<Rightarrow> Inl e | Inr ys \<Rightarrow> Inr (y # ys)))"

text \<open>\<^verbatim>\<open>drop_duplicates(subset=[...])\<close> keeps the first row of every key.\<close>

fun drop_duplicates :: "('a \<Rightarrow> 'k) \<Rightarrow> 'k list \<Rightarrow> 'a list \<Rightarrow> 'a list" where
  "drop_duplicates key seen [] = []"
| "drop_duplicates key seen (r # rs) =
     (if key r \<in> set seen then drop_duplicates key seen rs
      else r # drop_duplicates key (key r # seen) rs)"

definition process_fg :: "(string \<Rightarrow> date option) \<Rightarrow> fg_raw list \<Rightarrow> error + fg_row list" where
  "process_fg parse df_fg =
     (case traverse (to_datetime_fg parse) (map fg_date df_fg) of
        Inl e \<Rightarrow> Inl e
      | Inr dates \<Rightarrow>
          Inr (map (\<lambda>(r, d). \<lparr>fgr_date = fg_date r, fgr_value = fg_value r,
                              fgr_classification = fg_classification r, fgr_Date = d,
                              fgr_Regime = categorize_regime (fg_classification r)\<rparr>)
                 (drop_duplicates snd [] (zip df_fg dates))))"

subsection \<open>Trades\<close>

definition to_datetime_hd :: "string \<Rightarrow> error + datetime" where
  "to_datetime_hd s = (case strptime s of None \<Rightarrow> Inl (ValueError s) | Some t \<Rightarrow> Inr t)"

definition normalize_trade :: "hd_raw \<Rightarrow> datetime \<Rightarrow> hd_row" where
  "normalize_trade r t =
     (let utc = tz_convert_utc t; net = Closed_PnL r - Fee r in
      \<lparr>hdr_Account = Account r, hdr_Timestamp_IST = Timestamp_IST r,
       hdr_Closed_PnL = Closed_PnL r, hdr_Fee = Fee r, hdr_Size_USD = Size_USD r,
       hdr_Crossed = Crossed r,
       Timestamp_IST_DT = t, Timestamp_UTC = utc, Date = dt_date utc,
       Net_PnL = net, Is_Win = (0 < net), Is_Loss = (net < 0),
       Is_Taker = (Crossed r = True)\<rparr>)"

definition process_hd :: "hd_raw list \<Rightarrow> error + hd_row list" where
  "process_hd df_hd =
     (case traverse to_datetime_hd (map Timestamp_IST df_hd) of
        Inl e \<Rightarrow> Inl e
      | Inr ts \<Rightarrow> Inr (map (\<lambda>(r, t). normalize_trade r t) (zip df_hd ts)))"

subsection \<open>Daily aggregates\<close>

text \<open>
  The aggregations of \<^verbatim>\<open>groupby('Date').agg\<close>: \<^verbatim>\<open>sum\<close> of a
  boolean column counts its true cells, \<^verbatim>\<open>count\<close> counts the cells that are
  not empty, \<^verbatim>\<open>nunique\<close> the distinct ones among them, \<^verbatim>\<open>mean\<close>
  of no value is NaN (\<open>None\<close>).
\<close>

definition count_true :: "('a \<Rightarrow> bool) \<Rightarrow> 'a list \<Rightarrow> nat" where
  "count_true p g = length (filter p g)"

definition count_cells :: "'b option list \<Rightarrow> nat" where
  "count_cells cs = length (filter (\<lambda>c. c \<noteq> None) cs)"

definition nunique :: "'b option list \<Rightarrow> nat" where
  "nunique cs = length (remdups (filter (\<lambda>c. c \<noteq> None) cs))"

definition mean :: "rat list \<Rightarrow> rat option" where
  "mean xs = (if xs = [] then None else Some (sum_list xs / of_nat (length xs)))"

definition replace_0_1 :: "nat \<Rightarrow> nat" where
  "replace_0_1 n = (if n = 0 then 1 else n)"

definition agg :: "date \<Rightarrow> hd_row list \<Rightarrow> daily_row" where
  "agg d g =
     (let total = count_cells (map hdr_Account g);
          wins = count_true Is_Win g;
          losses = count_true Is_Loss g;
          takers = count_true Is_Taker g in
      \<lparr>ds_Date = d,
       Daily_Total_Net_PnL = sum_list (map Net_PnL g),
       Avg_Trade_Size = mean (map hdr_Size_USD g),
       Total_Trades = total,
       Unique_Accounts = nunique (map hdr_Account g),
       Winning_Trades = wins,
       Losing_Trades = losses,
       Taker_Trades = takers,
       Win_Rate = of_nat wins / of_nat (replace_0_1 (wins + losses)),
       Taker_Ratio = of_nat takers / of_nat (replace_0_1 total)\<rparr>)"

text \<open>The groups come out in the order of their keys, one per date that occurs.\<close>

definition group_keys :: "hd_row list \<Rightarrow> date list" where
  "group_keys df = sort (remdups (map Date df))"

definition daily_stats :: "hd_row list \<Rightarrow> daily_row list" where
  "daily_stats df = map (\<lambda>d. agg d (filter (\<lambda>t. Date t = d) df)) (group_keys df)"

subsection \<open>Merge\<close>

definition join_row :: "daily_row \<Rightarrow> fg_row \<Rightarrow> merged_row" where
  "join_row s f =
     \<lparr>m_stats = s, m_value = fgr_value f, m_classification = fgr_classification f,
      m_Regime = fgr_Regime f\<rparr>"

definition merge_inner :: "daily_row list \<Rightarrow> fg_row list \<Rightarrow> merged_row list" where
  "merge_inner stats fg =
     concat (map (\<lambda>s. map (join_row s) (filter (\<lambda>f. fgr_Date f = Some (ds_Date s)) fg)) stats)"

definition sort_values :: "merged_row list \<Rightarrow> merged_row list" where
  "sort_values rows = sort_key m_Date rows"

definition load_and_preprocess_data ::
  "(string \<Rightarrow> date option) \<Rightarrow> fg_raw list \<Rightarrow> hd_raw list \<Rightarrow> error + (merged_row list \<times> hd_row list)" where
  "load_and_preprocess_data parse df_fg df_hd =
     (case process_fg parse df_fg of
        Inl e \<Rightarrow> Inl e
      | Inr fg \<Rightarrow>
         (case process_hd df_hd of
            Inl e \<Rightarrow> Inl e
          | Inr df \<Rightarrow> Inr (sort_values (merge_inner (daily_stats df) fg), df)))"



text \<open>A reader of ISO dates \<^verbatim>\<open>YYYY-MM-DD\<close>, the form the sentiment file uses.\<close>

definition parse_iso :: "string \<Rightarrow> date option" where
  "parse_iso s =
     (case field 4 4 s of None \<Rightarrow> None | Some (y, s1) \<Rightarrow>
      case expect CHR ''-'' s1 of None \<Rightarrow> None | Some s2 \<Rightarrow>
      case field 1 2 s2 of None \<Rightarrow> None | Some (m, s3) \<Rightarrow>
      case expect CHR ''-'' s3 of None \<Rightarrow> None | Some s4 \<Rightarrow>
      case field 1 2 s4 of None \<Rightarrow> None | Some (dd, s5) \<Rightarrow>
      if s5 = [] \<and> valid_date (y, m, dd) then Some (y, m, dd) else None)"

subsection \<open>A small data set\<close>

text \<open>
  A small data set. Sentiment: 1 May 2023 twice (the second record is the duplicate), 31
  December 2022 with no classification, a record with no date, and 3 May 2023, a day
  without trades. Trades: a winning taker trade and a losing maker trade on 1 May 2023;
  one trade at 02:00 local time on 1 January 2023 whose fee equals its closed PnL; one
  trade on 2 May 2023, a day without sentiment.
\<close>

definition ex_fg :: "fg_raw list" where
  "ex_fg = [\<lparr>fg_date = Some ''2023-05-01'', fg_value = 20, fg_classification = Some ''Extreme Fear''\<rparr>,
          \<lparr>fg_date = Some ''2023-05-01'', fg_value = 75, fg_classification = Some ''Greed''\<rparr>,
          \<lparr>fg_date = Some ''2022-12-31'', fg_value = 50, fg_classification = None\<rparr>,
          \<lparr>fg_date = None, fg_value = 60, fg_classification = Some ''Greed''\<rparr>,
          \<lparr>fg_date = Some ''2023-05-03'', fg_value = 70, fg_classification = Some ''Extreme Greed''\<rparr>]"

definition ex_hd :: "hd_raw list" where
  "ex_hd = [\<lparr>Account = Some ''0xa'', Timestamp_IST = ''01-05-2023 12:00'', Closed_PnL = 10,
            Fee = 0, Size_USD = 100, Crossed = True\<rparr>,
          \<lparr>Account = Some ''0xb'', Timestamp_IST = ''01-05-2023 13:30'', Closed_PnL = 0,
            Fee = 4, Size_USD = 50, Crossed = False\<rparr>,
          \<lparr>Account = Some ''0xa'', Timestamp_IST = ''01-01-2023 02:00'', Closed_PnL = 2,
            Fee = 2, Size_USD = 10, Crossed = True\<rparr>,
          \<lparr>Account = Some ''0xc'', Timestamp_IST = ''02-05-2023 10:00'', Closed_PnL = 1,
            Fee = 0, Size_USD = 30, Crossed = False\<rparr>]"

text \<open>What the load makes of it.\<close>

definition ex_fg_rows :: "fg_row list" where
  "ex_fg_rows =
     [\<lparr>fgr_date = Some ''2023-05-01'', fgr_value = 20,
     fgr_classification = Some ''Extreme Fear'',
     fgr_Date = Some (2023, 5, 1), fgr_Regime = ''Fear''\<rparr>,
     \<lparr>fgr_date = Some ''2022-12-31'', fgr_value = 50,
     fgr_classification = None, fgr_Date = Some (2022, 12, 31),
     fgr_Regime = ''Neutral''\<rparr>,
     \<lparr>fgr_date = None, fgr_value = 60, fgr_classification = Some ''Greed'',
     fgr_Date = None, fgr_Regime = ''Greed''\<rparr>,
     \<lparr>fgr_date = Some ''2023-05-03'', fgr_value = 70,
     fgr_classification = Some ''Extreme Greed'',
     fgr_Date = Some (2023, 5, 3), fgr_Regime = ''Greed''\<rparr>]"

definition ex_rows :: "hd_row list" where
  "ex_rows =
     [\<lparr>hdr_Account = Some ''0xa'',
     hdr_Timestamp_IST = ''01-05-2023 12:00'', hdr_Closed_PnL = 10,
     hdr_Fee = 0, hdr_Size_USD = 100, hdr_Crossed = True,
     Timestamp_IST_DT = ((2023, 5, 1), 12, 0),
     Timestamp_UTC = ((2023, 5, 1), 6, 30), Date = (2023, 5, 1),
     Net_PnL = 10, Is_Win = True, Is_Loss = False, Is_Taker = True\<rparr>,
     \<lparr>hdr_Account = Some ''0xb'',
     hdr_Timestamp_IST = ''01-05-2023 13:30'', hdr_Closed_PnL = 0,
     hdr_Fee = 4, hdr_Size_USD = 50, hdr_Crossed = False,
     Timestamp_IST_DT = ((2023, 5, 1), 13, 30),
     Timestamp_UTC = ((2023, 5, 1), 8, 0), Date = (2023, 5, 1),
     Net_PnL = - 4, Is_Win = False, Is_Loss = True, Is_Taker = False\<rparr>,
     \<lparr>hdr_Account = Some ''0xa'',
     hdr_Timestamp_IST = ''01-01-2023 02:00'', hdr_Closed_PnL = 2,
     hdr_Fee = 2, hdr_Size_USD = 10, hdr_Crossed = True,
     Timestamp_IST_DT = ((2023, 1, 1), 2, 0),
     Timestamp_UTC = ((2022, 12, 31), 20, 30), Date = (2022, 12, 31),
     Net_PnL = 0, Is_Win = False, Is_Loss = False, Is_Taker = True\<rparr>,
     \<lparr>hdr_Account = Some ''0xc'',
     hdr_Timestamp_IST = ''02-05-2023 10:00'', hdr_Closed_PnL = 1,
     hdr_Fee = 0, hdr_Size_USD = 30, hdr_Crossed = False,
     Timestamp_IST_DT = ((2023, 5, 2), 10, 0),
     Timestamp_UTC = ((2023, 5, 2), 4, 30), Date = (2023, 5, 2),
     Net_PnL = 1, Is_Win = True, Is_Loss = False, Is_Taker = False\<rparr>]"

definition ex_stats :: "daily_row list" where
  "ex_stats =
     [\<lparr>ds_Date = (2022, 12, 31), Daily_Total_Net_PnL = 0,
     Avg_Trade_Size = Some 10, Total_Trades = 1, Unique_Accounts = 1,
     Winning_Trades = 0, Losing_Trades = 0, Taker_Trades = 1, Win_Rate = 0,
     Taker_Ratio = 1\<rparr>,
     \<lparr>ds_Date = (2023, 5, 1), Daily_Total_Net_PnL = 6,
     Avg_Trade_Size = Some 75, Total_Trades = 2, Unique_Accounts = 2,
     Winning_Trades = 1, Losing_Trades = 1, Taker_Trades = 1,
     Win_Rate = 1 / 2, Taker_Ratio = 1 / 2\<rparr>,
     \<lparr>ds_Date = (2023, 5, 2), Daily_Total_Net_PnL = 1,
     Avg_Trade_Size = Some 30, Total_Trades = 1, Unique_Accounts = 1,
     Winning_Trades = 1, Losing_Trades = 0, Taker_Trades = 0, Win_Rate = 1,
     Taker_Ratio = 0\<rparr>]"

definition ex_merged :: "merged_row list" where
  "ex_merged =
     [\<lparr>m_stats =
     \<lparr>ds_Date = (2022, 12, 31), Daily_Total_Net_PnL = 0,
     Avg_Trade_Size = Some 10, Total_Trades = 1,
     Unique_Accounts = 1, Winning_Trades = 0, Losing_Trades = 0,
     Taker_Trades = 1, Win_Rate = 0, Taker_Ratio = 1\<rparr>,
     m_value = 50, m_classification = None, m_Regime = ''Neutral''\<rparr>,
     \<lparr>m_stats =
     \<lparr>ds_Date = (2023, 5, 1), Daily_Total_Net_PnL = 6,
     Avg_Trade_Size = Some 75, Total_Trades = 2,
     Unique_Accounts = 2, Winning_Trades = 1, Losing_Trades = 1,
     Taker_Trades = 1, Win_Rate = 1 / 2, Taker_Ratio = 1 / 2\<rparr>,
     m_value = 20, m_classification = Some ''Extreme Fear'',
     m_Regime = ''Fear''\<rparr>]"

text \<open>Two taker trades on one day, the second with an empty \<^verbatim>\<open>Account\<close> cell.\<close>

definition ex_missing_account :: "hd_raw list" where
  "ex_missing_account =
     [\<lparr>Account = Some ''0xa'', Timestamp_IST = ''01-05-2023 12:00'', Closed_PnL = 10,
       Fee = 1, Size_USD = 100, Crossed = True\<rparr>,
      \<lparr>Account = None, Timestamp_IST = ''01-05-2023 13:30'', Closed_PnL = 5,
       Fee = 1, Size_USD = 50, Crossed = True\<rparr>]"

definition ex_missing_rows :: "hd_row list" where
  "ex_missing_rows =
     [\<lparr>hdr_Account = Some ''0xa'',
     hdr_Timestamp_IST = ''01-05-2023 12:00'', hdr_Closed_PnL = 10,
     hdr_Fee = 1, hdr_Size_USD = 100, hdr_Crossed = True,
     Timestamp_IST_DT = ((2023, 5, 1), 12, 0),
     Timestamp_UTC = ((2023, 5, 1), 6, 30), Date = (2023, 5, 1),
     Net_PnL = 9, Is_Win = True, Is_Loss = False, Is_Taker = True\<rparr>,
     \<lparr>hdr_Account = None, hdr_Timestamp_IST = ''01-05-2023 13:30'',
     hdr_Closed_PnL = 5, hdr_Fee = 1, hdr_Size_USD = 50,
     hdr_Crossed = True, Timestamp_IST_DT = ((2023, 5, 1), 13, 30),
     Timestamp_UTC = ((2023, 5, 1), 8, 0), Date = (2023, 5, 1),
     Net_PnL = 4, Is_Win = True, Is_Loss = False, Is_Taker = True\<rparr>]"

definition ex_missing_merged :: "merged_row list" where
  "ex_missing_merged =
     [\<lparr>m_stats =
     \<lparr>ds_Date = (2023, 5, 1), Daily_Total_Net_PnL = 13,
     Avg_Trade_Size = Some 75, Total_Trades = 1,
     Unique_Accounts = 1, Winning_Trades = 2, Losing_Trades = 0,
     Taker_Trades = 2, Win_Rate = 1, Taker_Ratio = 2\<rparr>,
     m_value = 20, m_classification = Some ''Extreme Fear'',
     m_Regime = ''Fear''\<rparr>]"


section \<open>Lists of results\<close>

lemma traverse_Inr:
  "traverse f xs = Inr ys \<Longrightarrow> list_all2 (\<lambda>x y. f x = Inr y) xs ys"
  by (induction xs arbitrary: ys) (auto split: sum.splits)


lemma process_hd_Inr:
  assumes "process_hd df = Inr rows"
  shows "\<exists>ts. list_all2 (\<lambda>r t. strptime (Timestamp_IST r) = Some t) df ts
            \<and> rows = map (\<lambda>(r, t). normalize_trade r t) (zip df ts)"
proof -
  from assms obtain ts where ts: "traverse to_datetime_hd (map Timestamp_IST df) = Inr ts"
    and rows: "rows = map (\<lambda>(r, t). normalize_trade r t) (zip df ts)"
    by (auto simp: process_hd_def split: sum.splits)
  from traverse_Inr[OF ts] have "list_all2 (\<lambda>r t. to_datetime_hd (Timestamp_IST r) = Inr t) df ts"
    by (simp add: list_all2_map1)
  then have "list_all2 (\<lambda>r t. strptime (Timestamp_IST r) = Some t) df ts"
    by (rule list_all2_mono) (auto simp: to_datetime_hd_def split: option.splits)
  with rows show ?thesis by blast
qed


lemma load_Inr:
  assumes "load_and_preprocess_data parse df_fg df_hd = Inr (merged, rows)"
  shows "\<exists>fg. process_fg parse df_fg = Inr fg \<and> process_hd df_hd = Inr rows
            \<and> merged = sort_values (merge_inner (daily_stats rows) fg)"
  using assms by (auto simp: load_and_preprocess_data_def split: sum.splits)

text \<open>The small data set, run through the load.\<close>

lemma ex_value: "load_and_preprocess_data parse_iso ex_fg ex_hd = Inr (ex_merged, ex_rows)"
  by code_simp

lemma ex_fg_value: "process_fg parse_iso ex_fg = Inr ex_fg_rows"
  by code_simp

lemma ex_stats_value: "daily_stats ex_rows = ex_stats"
  by code_simp

lemma ex_missing_value:
  "load_and_preprocess_data parse_iso ex_fg ex_missing_account =
     Inr (ex_missing_merged, ex_missing_rows)"
  by code_simp

section \<open>Per-trade economics\<close>



section \<open>The calendar and the conversion to UTC\<close>


















section \<open>Regimes and the rows of the merge\<close>

lemma starts_with_prefix: "starts_with p s \<longleftrightarrow> prefix p s"
  by (induction p s rule: starts_with.induct) auto

lemma contains_sublist: "contains sub s \<longleftrightarrow> sublist sub s"
  by (induction s) (auto simp: starts_with_prefix sublist_Cons_right)

lemma set_sort_values: "set (sort_values rows) = set rows"
  by (simp add: sort_values_def)

lemma set_merge_inner:
  "set (merge_inner stats fg) =
     {join_row s f | s f. s \<in> set stats \<and> f \<in> set fg \<and> fgr_Date f = Some (ds_Date s)}"
  by (auto simp: merge_inner_def)

lemma process_fg_Inr:
  assumes "process_fg parse df_fg = Inr fg"
  shows "\<exists>dates. traverse (to_datetime_fg parse) (map fg_date df_fg) = Inr dates \<and>
           fg = map (\<lambda>(r, d). \<lparr>fgr_date = fg_date r, fgr_value = fg_value r,
                              fgr_classification = fg_classification r, fgr_Date = d,
                              fgr_Regime = categorize_regime (fg_classification r)\<rparr>)
                 (drop_duplicates snd [] (zip df_fg dates))"
  using assms by (auto simp: process_fg_def split: sum.splits)

lemma process_fg_regime:
  assumes "process_fg parse df_fg = Inr fg" "f \<in> set fg"
  shows "fgr_Regime f = categorize_regime (fgr_classification f)"
  using process_fg_Inr[OF assms(1)] assms(2) by auto

lemma merged_rows:
  assumes "load_and_preprocess_data parse df_fg df_hd = Inr (merged, rows)" "r \<in> set merged"
  shows "\<exists>fg s f. process_fg parse df_fg = Inr fg \<and> s \<in> set (daily_stats rows) \<and> f \<in> set fg \<and>
           fgr_Date f = Some (ds_Date s) \<and> r = join_row s f"
proof -
  from load_Inr[OF assms(1)] obtain fg where fg: "process_fg parse df_fg = Inr fg"
    and m: "merged = sort_values (merge_inner (daily_stats rows) fg)" by blast
  from assms(2) m have "r \<in> set (merge_inner (daily_stats rows) fg)"
    by (simp add: set_sort_values)
  then show ?thesis using fg unfolding set_merge_inner by blast
qed


text \<open>
  Claim C4. The regime is a total function of the classification text alone: Fear when
  the lower-cased text contains fear, otherwise Greed when it contains greed, otherwise
  Neutral, so a label containing both is Fear and two labels that differ only in case get
  the same regime; it is always one of Fear, Neutral, Greed; and every row of the merged
  table carries the regime of its own classification.
\<close>

theorem regime_classification:
  "categorize_regime x =
     (if sublist ''fear'' (lower (str x)) then ''Fear''
      else if sublist ''greed'' (lower (str x)) then ''Greed'' else ''Neutral'') \<and>
   categorize_regime x \<in> {''Fear'', ''Neutral'', ''Greed''} \<and>
   (lower (str x) = lower (str y) \<longrightarrow> categorize_regime x = categorize_regime y) \<and>
   (load_and_preprocess_data parse df_fg df_hd = Inr (merged, rows) \<longrightarrow>
      (\<forall>r\<in>set merged. m_Regime r = categorize_regime (m_classification r)))"
proof (intro conjI impI ballI)
  show "categorize_regime x =
     (if sublist ''fear'' (lower (str x)) then ''Fear''
      else if sublist ''greed'' (lower (str x)) then ''Greed'' else ''Neutral'')"
    by (simp add: categorize_regime_def Let_def contains_sublist)
  show "categorize_regime x \<in> {''Fear'', ''Neutral'', ''Greed''}"
    by (simp add: categorize_regime_def Let_def)
  show "categorize_regime x = categorize_regime y" if "lower (str x) = lower (str y)"
    using that by (simp add: categorize_regime_def Let_def)
next
  fix r assume l: "load_and_preprocess_data parse df_fg df_hd = Inr (merged, rows)"
    and r: "r \<in> set merged"
  from merged_rows[OF l r] obtain fg s f where "process_fg parse df_fg = Inr fg" "f \<in> set fg"
    "r = join_row s f" by blast
  then show "m_Regime r = categorize_regime (m_classification r)"
    using process_fg_regime[of parse df_fg fg f] by (simp add: join_row_def)
qed

lemma ex_regime: "categorize_regime (Some ''GREEDy fEar'') = ''Fear''"
  by code_simp

theorem regime_classification_witness:
  "sublist ''fear'' (lower (str (Some ''GREEDy fEar''))) \<and>
   sublist ''greed'' (lower (str (Some ''GREEDy fEar''))) \<and>
   categorize_regime (Some ''GREEDy fEar'') = ''Fear'' \<and>
   categorize_regime (Some ''greedy fear'') = ''Fear'' \<and>
   ex_merged \<noteq> [] \<and>
   m_Regime (ex_merged ! 1) = categorize_regime (m_classification (ex_merged ! 1))"
proof -
  have a: "lower (str (Some ''GREEDy fEar'')) = lower (str (Some ''greedy fear''))" by code_simp
  have b: "contains ''fear'' (lower (str (Some ''GREEDy fEar'')))"
    "contains ''greed'' (lower (str (Some ''GREEDy fEar'')))" by code_simp+
  have c: "ex_merged \<noteq> []" by (simp add: ex_merged_def)
  note t = regime_classification[of "Some ''GREEDy fEar''" "Some ''greedy fear''" parse_iso ex_fg ex_hd
      ex_merged ex_rows]
  from b have s: "sublist ''fear'' (lower (str (Some ''GREEDy fEar'')))"
    "sublist ''greed'' (lower (str (Some ''GREEDy fEar'')))"
    by (simp_all only: contains_sublist)
  from t a have "categorize_regime (Some ''GREEDy fEar'') = categorize_regime (Some ''greedy fear'')"
    by blast
  with ex_regime have e: "categorize_regime (Some ''greedy fear'') = ''Fear''" by simp
  have "ex_merged ! 1 \<in> set ex_merged" by (simp add: ex_merged_def)
  with t ex_value have r: "m_Regime (ex_merged ! 1) = categorize_regime (m_classification (ex_merged ! 1))"
    by blast
  show ?thesis by (intro conjI) (rule s ex_regime e c r)+
qed

section \<open>Daily aggregates\<close>

lemma set_group_keys: "set (group_keys df) = Date ` set df"
  by (simp add: group_keys_def)

lemma group_keys_sorted: "sorted (group_keys df)" and group_keys_distinct: "distinct (group_keys df)"
  by (simp_all add: group_keys_def)

lemma ds_Date_agg: "ds_Date (agg d g) = d"
  by (simp add: agg_def Let_def)

lemma map_ds_Date_daily_stats: "map ds_Date (daily_stats df) = group_keys df"
  by (simp add: daily_stats_def ds_Date_agg comp_def)

lemma daily_stats_set:
  "s \<in> set (daily_stats df) \<longleftrightarrow> (\<exists>t\<in>set df. s = agg (Date t) (filter (\<lambda>u. Date u = Date t) df))"
  by (auto simp: daily_stats_def set_group_keys)

lemma replace_0_1_max: "replace_0_1 n = max 1 n"
  by (simp add: replace_0_1_def max_def)

lemma agg_ratios:
  "Win_Rate (agg d g) = of_nat (Winning_Trades (agg d g))
       / of_nat (max 1 (Winning_Trades (agg d g) + Losing_Trades (agg d g)))"
  "Taker_Ratio (agg d g) = of_nat (Taker_Trades (agg d g)) / of_nat (max 1 (Total_Trades (agg d g)))"
  by (simp_all add: agg_def Let_def replace_0_1_max)

lemma rows_flags:
  assumes "process_hd df = Inr rows" "t \<in> set rows"
  shows "Is_Win t = (0 < Net_PnL t) \<and> Is_Loss t = (Net_PnL t < 0)"
proof -
  from process_hd_Inr[OF assms(1)] obtain ts where
    "rows = map (\<lambda>(r, t). normalize_trade r t) (zip df ts)" by blast
  with assms(2) obtain r u where "t = normalize_trade r u" by auto
  then show ?thesis by (simp add: normalize_trade_def Let_def)
qed

text \<open>
  Claim C3. For every day of the daily aggregates of a load that succeeds, the win rate is
  the number of winning trades over the larger of 1 and the number of winning and losing
  trades, and the taker ratio is the number of taker trades over the larger of 1 and the
  number of trades counted; so a day whose only trade has a net PnL of zero has win rate 0.
  The daily figures of every merged row are those of such a day.
\<close>

theorem daily_ratios:
  assumes "load_and_preprocess_data parse df_fg df_hd = Inr (merged, rows)"
    and "s \<in> set (daily_stats rows)"
  shows "Win_Rate s = of_nat (Winning_Trades s) / of_nat (max 1 (Winning_Trades s + Losing_Trades s)) \<and>
         Taker_Ratio s = of_nat (Taker_Trades s) / of_nat (max 1 (Total_Trades s)) \<and>
         (\<forall>t. filter (\<lambda>u. Date u = ds_Date s) rows = [t] \<and> Net_PnL t = 0 \<longrightarrow> Win_Rate s = 0) \<and>
         (\<forall>r\<in>set merged. m_stats r \<in> set (daily_stats rows))"
proof (intro conjI allI impI ballI)
  from assms(2) obtain u where u: "u \<in> set rows"
    and s: "s = agg (Date u) (filter (\<lambda>v. Date v = Date u) rows)"
    unfolding daily_stats_set by blast
  show "Win_Rate s = of_nat (Winning_Trades s) / of_nat (max 1 (Winning_Trades s + Losing_Trades s))"
    unfolding s by (rule agg_ratios)
  show "Taker_Ratio s = of_nat (Taker_Trades s) / of_nat (max 1 (Total_Trades s))"
    unfolding s by (rule agg_ratios)
  fix t assume a: "filter (\<lambda>u. Date u = ds_Date s) rows = [t] \<and> Net_PnL t = 0"
  from load_Inr[OF assms(1)] have p: "process_hd df_hd = Inr rows" by blast
  have "t \<in> set (filter (\<lambda>u. Date u = ds_Date s) rows)" using a by simp
  then have "t \<in> set rows" by simp
  from rows_flags[OF p this] a have w: "\<not> Is_Win t" by simp
  have g: "filter (\<lambda>v. Date v = Date u) rows = [t]" using a by (simp add: s ds_Date_agg)
  show "Win_Rate s = 0"
    unfolding s g using w by (simp add: agg_def Let_def count_true_def)
next
  fix r assume "r \<in> set merged"
  from merged_rows[OF assms(1) this] show "m_stats r \<in> set (daily_stats rows)"
    by (auto simp: join_row_def)
qed

theorem daily_ratios_witness:
  "Win_Rate (ex_stats ! 0) = 0"
proof -
  have "ex_stats ! 0 \<in> set (daily_stats ex_rows)"
    unfolding ex_stats_value by (simp add: ex_stats_def)
  moreover have "filter (\<lambda>u. Date u = ds_Date (ex_stats ! 0)) ex_rows = [ex_rows ! 2]"
    "Net_PnL (ex_rows ! 2) = 0"
    by (simp_all add: ex_stats_def ex_rows_def)
  ultimately show ?thesis using daily_ratios[OF ex_value] by blast
qed

section \<open>Deduplicated sentiment and the inner join\<close>

lemma drop_duplicates_keys:
  "set (map key (drop_duplicates key seen rs)) = set (map key rs) - set seen"
  by (induction rs arbitrary: seen) auto

lemma drop_duplicates_distinct:
  "distinct (map key (drop_duplicates key seen rs))"
proof (induction rs arbitrary: seen)
  case Nil
  then show ?case by simp
next
  case (Cons r rs)
  have "key r \<notin> set (map key (drop_duplicates key (key r # seen) rs))"
    unfolding drop_duplicates_keys by simp
  with Cons show ?case by simp
qed

lemma drop_duplicates_first:
  "r \<in> set (drop_duplicates key seen rs) \<Longrightarrow>
     key r \<notin> set seen \<and> find (\<lambda>x. key x = key r) rs = Some r"
proof (induction rs arbitrary: seen)
  case Nil
  then show ?case by simp
next
  case (Cons a rs)
  show ?case
  proof (cases "key a \<in> set seen")
    case True
    with Cons.prems have "r \<in> set (drop_duplicates key seen rs)" by simp
    from Cons.IH[OF this] True show ?thesis by auto
  next
    case False
    with Cons.prems consider "r = a" | "r \<in> set (drop_duplicates key (key a # seen) rs)" by auto
    then show ?thesis
    proof cases
      case 1
      with False show ?thesis by simp
    next
      case 2
      from Cons.IH[OF 2] show ?thesis by auto
    qed
  qed
qed

lemma find_zip:
  assumes "list_all2 (\<lambda>x y. g x = Inr y) xs ys" "find (\<lambda>p. snd p = k) (zip xs ys) = Some (x, y)"
  shows "find (\<lambda>x. g x = Inr k) xs = Some x \<and> y = k"
  using assms by (induction xs ys rule: list_all2_induct) (auto split: if_splits)

lemma list_all2_Inr_set:
  "list_all2 (\<lambda>x y. g x = Inr y) xs ys \<Longrightarrow> set ys = {y. \<exists>x\<in>set xs. g x = Inr y}"
  by (induction xs ys rule: list_all2_induct) auto

lemma filter_key_distinct:
  "distinct (map k xs) \<Longrightarrow>
     map (\<lambda>x. c) (filter (\<lambda>x. k x = v) xs) = (if v \<in> k ` set xs then [c] else [])"
  by (induction xs) (auto simp: image_iff)

lemma m_Date_join_row: "m_Date (join_row s f) = ds_Date s"
  by (simp add: m_Date_def join_row_def)

lemma map_m_Date_merge_inner:
  assumes "distinct (map fgr_Date fg)"
  shows "map m_Date (merge_inner stats fg) =
           filter (\<lambda>d. Some d \<in> fgr_Date ` set fg) (map ds_Date stats)"
proof (induction stats)
  case Nil
  then show ?case by (simp add: merge_inner_def)
next
  case (Cons s stats)
  have "map m_Date (map (join_row s) (filter (\<lambda>f. fgr_Date f = Some (ds_Date s)) fg))
      = map (\<lambda>f. ds_Date s) (filter (\<lambda>f. fgr_Date f = Some (ds_Date s)) fg)"
    by (simp add: m_Date_join_row comp_def)
  also have "\<dots> = (if Some (ds_Date s) \<in> fgr_Date ` set fg then [ds_Date s] else [])"
    by (rule filter_key_distinct[OF assms])
  finally have h: "map m_Date (map (join_row s) (filter (\<lambda>f. fgr_Date f = Some (ds_Date s)) fg))
      = (if Some (ds_Date s) \<in> fgr_Date ` set fg then [ds_Date s] else [])" .
  have "map m_Date (merge_inner (s # stats) fg)
      = map m_Date (map (join_row s) (filter (\<lambda>f. fgr_Date f = Some (ds_Date s)) fg))
        @ map m_Date (merge_inner stats fg)"
    by (simp add: merge_inner_def)
  then show ?case unfolding h Cons.IH by simp
qed

lemma process_fg_dates:
  assumes "process_fg parse df_fg = Inr fg"
  shows "\<exists>dates. list_all2 (\<lambda>r d. to_datetime_fg parse (fg_date r) = Inr d) df_fg dates \<and>
           fg = map (\<lambda>(r, d). \<lparr>fgr_date = fg_date r, fgr_value = fg_value r,
                              fgr_classification = fg_classification r, fgr_Date = d,
                              fgr_Regime = categorize_regime (fg_classification r)\<rparr>)
                 (drop_duplicates snd [] (zip df_fg dates))"
proof -
  from process_fg_Inr[OF assms] obtain dates where
    t: "traverse (to_datetime_fg parse) (map fg_date df_fg) = Inr dates"
    and fg: "fg = map (\<lambda>(r, d). \<lparr>fgr_date = fg_date r, fgr_value = fg_value r,
                              fgr_classification = fg_classification r, fgr_Date = d,
                              fgr_Regime = categorize_regime (fg_classification r)\<rparr>)
                 (drop_duplicates snd [] (zip df_fg dates))" by blast
  from traverse_Inr[OF t] have "list_all2 (\<lambda>r d. to_datetime_fg parse (fg_date r) = Inr d) df_fg dates"
    by (simp add: list_all2_map1)
  with fg show ?thesis by blast
qed

lemma process_fg_keys:
  assumes "process_fg parse df_fg = Inr fg"
  shows "distinct (map fgr_Date fg)"
    and "set (map fgr_Date fg) = {d. \<exists>r\<in>set df_fg. to_datetime_fg parse (fg_date r) = Inr d}"
proof -
  from process_fg_dates[OF assms] obtain dates where
    a: "list_all2 (\<lambda>r d. to_datetime_fg parse (fg_date r) = Inr d) df_fg dates"
    and fg: "fg = map (\<lambda>(r, d). \<lparr>fgr_date = fg_date r, fgr_value = fg_value r,
                              fgr_classification = fg_classification r, fgr_Date = d,
                              fgr_Regime = categorize_regime (fg_classification r)\<rparr>)
                 (drop_duplicates snd [] (zip df_fg dates))" by blast
  have m: "map fgr_Date fg = map snd (drop_duplicates snd [] (zip df_fg dates))"
    unfolding fg by (simp add: comp_def case_prod_beta)
  show "distinct (map fgr_Date fg)" unfolding m by (rule drop_duplicates_distinct)
  from a have len: "length df_fg = length dates" by (rule list_all2_lengthD)
  have "set (map fgr_Date fg) = set dates"
    unfolding m drop_duplicates_keys using len by simp
  then show "set (map fgr_Date fg) = {d. \<exists>r\<in>set df_fg. to_datetime_fg parse (fg_date r) = Inr d}"
    using list_all2_Inr_set[OF a] by simp
qed

text \<open>
  Claim C6. When the sentiment normalizer succeeds, no two of its rows have the same
  date, the dates of its rows are exactly the dates read from the input records, and every
  row carries the fields of the first input record that has its date: the first record
  seen for a date is kept and later ones are dropped.
\<close>

theorem sentiment_dedup:
  assumes "process_fg parse df_fg = Inr fg"
  shows "distinct (map fgr_Date fg) \<and>
         set (map fgr_Date fg) = {d. \<exists>r\<in>set df_fg. to_datetime_fg parse (fg_date r) = Inr d} \<and>
         (\<forall>f\<in>set fg. \<exists>r. find (\<lambda>r. to_datetime_fg parse (fg_date r) = Inr (fgr_Date f)) df_fg = Some r \<and>
             fgr_date f = fg_date r \<and> fgr_value f = fg_value r \<and>
             fgr_classification f = fg_classification r)"
proof (intro conjI ballI)
  show "distinct (map fgr_Date fg)" by (rule process_fg_keys[OF assms])
  show "set (map fgr_Date fg) = {d. \<exists>r\<in>set df_fg. to_datetime_fg parse (fg_date r) = Inr d}"
    by (rule process_fg_keys[OF assms])
next
  fix f assume f: "f \<in> set fg"
  from process_fg_dates[OF assms] obtain dates where
    a: "list_all2 (\<lambda>r d. to_datetime_fg parse (fg_date r) = Inr d) df_fg dates"
    and fg: "fg = map (\<lambda>(r, d). \<lparr>fgr_date = fg_date r, fgr_value = fg_value r,
                              fgr_classification = fg_classification r, fgr_Date = d,
                              fgr_Regime = categorize_regime (fg_classification r)\<rparr>)
                 (drop_duplicates snd [] (zip df_fg dates))" by blast
  from f fg obtain r d where rd: "(r, d) \<in> set (drop_duplicates snd [] (zip df_fg dates))"
    and fr: "f = \<lparr>fgr_date = fg_date r, fgr_value = fg_value r,
                  fgr_classification = fg_classification r, fgr_Date = d,
                  fgr_Regime = categorize_regime (fg_classification r)\<rparr>" by auto
  from drop_duplicates_first[OF rd] have "find (\<lambda>p. snd p = d) (zip df_fg dates) = Some (r, d)"
    by simp
  from find_zip[OF a this] have "find (\<lambda>r. to_datetime_fg parse (fg_date r) = Inr d) df_fg = Some r"
    by simp
  then show "\<exists>r. find (\<lambda>r. to_datetime_fg parse (fg_date r) = Inr (fgr_Date f)) df_fg = Some r \<and>
             fgr_date f = fg_date r \<and> fgr_value f = fg_value r \<and>
             fgr_classification f = fg_classification r"
    unfolding fr by (intro exI[of _ r]) simp
qed

theorem sentiment_dedup_witness:
  "distinct (map fgr_Date ex_fg_rows) \<and> length ex_fg = 5 \<and> length ex_fg_rows = 4 \<and>
   (\<exists>r. find (\<lambda>r. to_datetime_fg parse_iso (fg_date r) = Inr (fgr_Date (ex_fg_rows ! 0))) ex_fg = Some r \<and>
        fgr_value (ex_fg_rows ! 0) = fg_value r)"
proof -
  have "ex_fg_rows ! 0 \<in> set ex_fg_rows" "length ex_fg = 5" "length ex_fg_rows = 4"
    by (simp_all add: ex_fg_rows_def ex_fg_def)
  with sentiment_dedup[OF ex_fg_value] show ?thesis by blast
qed

lemma to_datetime_fg_Some:
  "to_datetime_fg parse c = Inr (Some d) \<longleftrightarrow> (\<exists>s. c = Some s \<and> parse s = Some d)"
  by (auto simp: to_datetime_fg_def split: option.splits)

lemma merged_keys:
  assumes "load_and_preprocess_data parse df_fg df_hd = Inr (merged, rows)"
  shows "\<exists>fg. process_fg parse df_fg = Inr fg \<and> merged = merge_inner (daily_stats rows) fg \<and>
           map m_Date merged = filter (\<lambda>d. Some d \<in> fgr_Date ` set fg) (group_keys rows)"
proof -
  from load_Inr[OF assms] obtain fg where fg: "process_fg parse df_fg = Inr fg"
    and m: "merged = sort_values (merge_inner (daily_stats rows) fg)" by blast
  have k: "map m_Date (merge_inner (daily_stats rows) fg)
      = filter (\<lambda>d. Some d \<in> fgr_Date ` set fg) (group_keys rows)"
    using map_m_Date_merge_inner[OF process_fg_keys(1)[OF fg]]
    by (simp add: map_ds_Date_daily_stats)
  have "sorted (map m_Date (merge_inner (daily_stats rows) fg))"
    unfolding k using group_keys_sorted by (rule sorted_wrt_filter)
  then have "sort_values (merge_inner (daily_stats rows) fg) = merge_inner (daily_stats rows) fg"
    unfolding sort_values_def by (rule sort_key_id_if_sorted)
  with m k fg show ?thesis by simp
qed

text \<open>
  Claim C2. In a load that succeeds, a date is the date of a row of the merged table
  exactly when some normalized trade falls on it and some sentiment record has a date text
  that reads as it; the rows are in ascending order of date, one row per date.
\<close>

theorem inner_join:
  assumes "load_and_preprocess_data parse df_fg df_hd = Inr (merged, rows)"
  shows "(\<forall>d. d \<in> set (map m_Date merged) \<longleftrightarrow>
            (\<exists>t\<in>set rows. Date t = d) \<and>
            (\<exists>r\<in>set df_fg. \<exists>s. fg_date r = Some s \<and> parse s = Some d)) \<and>
         sorted (map m_Date merged) \<and> distinct (map m_Date merged)"
proof -
  from merged_keys[OF assms] obtain fg where fg: "process_fg parse df_fg = Inr fg"
    and k: "map m_Date merged = filter (\<lambda>d. Some d \<in> fgr_Date ` set fg) (group_keys rows)"
    by blast
  have s: "sorted (map m_Date merged)"
    unfolding k using group_keys_sorted by (rule sorted_wrt_filter)
  have d: "distinct (map m_Date merged)"
    unfolding k using group_keys_distinct by (rule distinct_filter)
  have "fgr_Date ` set fg = {d. \<exists>r\<in>set df_fg. to_datetime_fg parse (fg_date r) = Inr d}"
    using process_fg_keys(2)[OF fg] by simp
  then have f: "Some d \<in> fgr_Date ` set fg \<longleftrightarrow>
      (\<exists>r\<in>set df_fg. \<exists>s. fg_date r = Some s \<and> parse s = Some d)" for d
    by (simp add: to_datetime_fg_Some)
  have "d \<in> set (map m_Date merged) \<longleftrightarrow>
            (\<exists>t\<in>set rows. Date t = d) \<and>
            (\<exists>r\<in>set df_fg. \<exists>s. fg_date r = Some s \<and> parse s = Some d)" for d
    unfolding k using f[of d] by (auto simp: set_group_keys)
  with s d show ?thesis by blast
qed

theorem inner_join_witness:
  "map m_Date ex_merged = [(2022, 12, 31), (2023, 5, 1)] \<and>
   sorted (map m_Date ex_merged) \<and> distinct (map m_Date ex_merged) \<and>
   (\<exists>t. t \<in> set ex_rows \<and> Date t = (2023, 5, 1)) \<and>
   (\<exists>r s. r \<in> set ex_fg \<and> fg_date r = Some s \<and> parse_iso s = Some (2023, 5, 1))"
proof -
  have m: "map m_Date ex_merged = [(2022, 12, 31), (2023, 5, 1)]"
    by (simp add: ex_merged_def m_Date_def)
  then have "(2023, 5, 1) \<in> set (map m_Date ex_merged)" by simp
  with inner_join[OF ex_value] m show ?thesis by blast
qed

section \<open>One table per input\<close>

lemma mset_merge_inner:
  "mset (merge_inner stats fg) =
     (\<Sum>s\<in>#mset stats. mset (map (join_row s) (filter (\<lambda>f. fgr_Date f = Some (ds_Date s)) fg)))"
  by (induction stats) (simp_all add: merge_inner_def)

lemma sorted_rows_unique:
  assumes "distinct (map m_Date xs)" "sorted (map m_Date xs)"
    and "mset ys = mset xs" "sorted (map m_Date ys)"
  shows "ys = xs"
proof -
  have m: "mset (map m_Date ys) = mset (map m_Date xs)" using assms(3) by simp
  then have d: "distinct (map m_Date ys)" using assms(1) mset_eq_imp_distinct_iff by blast
  have "set (map m_Date ys) = set (map m_Date xs)" using m by (rule mset_eq_setD)
  with assms(1,2,4) d have k: "map m_Date ys = map m_Date xs"
    by (intro sorted_distinct_set_unique)
  have "set ys = set xs" using assms(3) by (rule mset_eq_setD)
  moreover have "inj_on m_Date (set xs)" using assms(1) by (simp add: distinct_map)
  ultimately have "inj_on m_Date (set ys \<union> set xs)" by simp
  with k show ?thesis by (rule map_inj_on)
qed

text \<open>
  Claim C9. The load is a function of its two inputs: equal inputs give equal results. In
  a load that succeeds the merged table is moreover the only arrangement of its rows in
  ascending order of date, and merging the daily aggregates taken in any other order and
  sorting gives the same table; neither the order in which the groups are produced nor the
  way the sort treats equal keys can show in the result.
\<close>

theorem load_deterministic:
  "(df_fg' = df_fg \<and> df_hd' = df_hd \<longrightarrow>
      load_and_preprocess_data parse df_fg' df_hd' = load_and_preprocess_data parse df_fg df_hd) \<and>
   (load_and_preprocess_data parse df_fg df_hd = Inr (merged, rows) \<longrightarrow>
      (\<forall>ms. mset ms = mset merged \<and> sorted (map m_Date ms) \<longrightarrow> ms = merged) \<and>
      (\<forall>fg stats'. process_fg parse df_fg = Inr fg \<and> mset stats' = mset (daily_stats rows) \<longrightarrow>
         sort_values (merge_inner stats' fg) = merged))"
proof (intro conjI impI allI)
  show "load_and_preprocess_data parse df_fg' df_hd' = load_and_preprocess_data parse df_fg df_hd"
    if "df_fg' = df_fg \<and> df_hd' = df_hd" using that by simp
next
  assume l: "load_and_preprocess_data parse df_fg df_hd = Inr (merged, rows)"
  from merged_keys[OF l] obtain fg0 where fg0: "process_fg parse df_fg = Inr fg0"
    and m0: "merged = merge_inner (daily_stats rows) fg0"
    and k: "map m_Date merged = filter (\<lambda>d. Some d \<in> fgr_Date ` set fg0) (group_keys rows)"
    by blast
  have s: "sorted (map m_Date merged)"
    unfolding k using group_keys_sorted by (rule sorted_wrt_filter)
  have d: "distinct (map m_Date merged)"
    unfolding k using group_keys_distinct by (rule distinct_filter)
  show u: "ms = merged" if "mset ms = mset merged \<and> sorted (map m_Date ms)" for ms
    using sorted_rows_unique[OF d s] that by blast
  show "sort_values (merge_inner stats' fg) = merged"
    if a: "process_fg parse df_fg = Inr fg \<and> mset stats' = mset (daily_stats rows)" for fg stats'
  proof -
    from a fg0 have "fg = fg0" by simp
    with a m0 have "mset (merge_inner stats' fg) = mset merged"
      by (simp add: mset_merge_inner)
    then have "mset (sort_values (merge_inner stats' fg)) = mset merged"
      by (simp add: sort_values_def)
    moreover have "sorted (map m_Date (sort_values (merge_inner stats' fg)))"
      by (simp add: sort_values_def)
    ultimately show ?thesis using sorted_rows_unique[OF d s] by blast
  qed
qed

theorem load_deterministic_witness:
  "sort_values (merge_inner (rev ex_stats) ex_fg_rows) = ex_merged"
proof -
  have "mset (rev ex_stats) = mset (daily_stats ex_rows)" by (simp add: ex_stats_value)
  with load_deterministic[of ex_fg ex_fg ex_hd ex_hd parse_iso ex_merged ex_rows] ex_value ex_fg_value
  show ?thesis by blast
qed

section \<open>What makes the load fail\<close>







section \<open>Counting trades and accounts\<close>

text \<open>
  The win rate lies between 0 and 1 on every day. The taker ratio does on every day whose
  trades all have an account; wins, losses and trades that net to zero partition a day.
\<close>

lemma ratio_bounds:
  fixes a b :: nat assumes "a \<le> b" "0 < b"
  shows "0 \<le> (of_nat a / of_nat b :: rat) \<and> (of_nat a / of_nat b :: rat) \<le> 1"
  using assms by (simp add: divide_le_eq_1)

lemma win_rate_bounds: "0 \<le> Win_Rate (agg d g) \<and> Win_Rate (agg d g) \<le> 1"
proof -
  have "Win_Rate (agg d g) = of_nat (count_true Is_Win g)
          / of_nat (max 1 (count_true Is_Win g + count_true Is_Loss g))"
    by (simp add: agg_def Let_def replace_0_1_max)
  moreover have "count_true Is_Win g \<le> max 1 (count_true Is_Win g + count_true Is_Loss g)"
    "0 < max 1 (count_true Is_Win g + count_true Is_Loss g)" by simp_all
  ultimately show ?thesis using ratio_bounds by metis
qed

lemma count_cells_all:
  "\<forall>c\<in>set cs. c \<noteq> None \<Longrightarrow> count_cells cs = length cs"
  by (simp add: count_cells_def)

lemma taker_ratio_bounds:
  assumes "\<forall>t\<in>set g. hdr_Account t \<noteq> None"
  shows "0 \<le> Taker_Ratio (agg d g) \<and> Taker_Ratio (agg d g) \<le> 1"
proof -
  have t: "count_cells (map hdr_Account g) = length g"
    using assms by (intro count_cells_all[THEN trans]) simp_all
  have "Taker_Ratio (agg d g) = of_nat (count_true Is_Taker g) / of_nat (max 1 (length g))"
    by (simp add: agg_def Let_def replace_0_1_max t)
  moreover have "count_true Is_Taker g \<le> max 1 (length g)"
    by (simp add: count_true_def le_max_iff_disj)
  moreover have "0 < max 1 (length g)" by simp
  ultimately show ?thesis using ratio_bounds by metis
qed

lemma win_loss_partition:
  assumes "\<forall>t\<in>set g. Is_Win t = (0 < Net_PnL t) \<and> Is_Loss t = (Net_PnL t < 0)"
  shows "count_true Is_Win g + count_true Is_Loss g + count_true (\<lambda>t. Net_PnL t = 0) g = length g"
  using assms by (induction g) (auto simp: count_true_def)

text \<open>
  Claim C8, at a day with a missing account. Two taker trades fall on 1 May 2023 and the
  second has an empty \<^verbatim>\<open>Account\<close> cell. The load counts one trade and two taker
  trades for the day, and its taker ratio is 2, which is not within 0 and 1.
\<close>

theorem taker_ratio_above_one:
  "load_and_preprocess_data parse_iso ex_fg ex_missing_account =
     Inr (ex_missing_merged, ex_missing_rows) \<and>
   Account (ex_missing_account ! 1) = None \<and>
   Taker_Trades (m_stats (ex_missing_merged ! 0)) = 2 \<and>
   Total_Trades (m_stats (ex_missing_merged ! 0)) = 1 \<and>
   Taker_Ratio (m_stats (ex_missing_merged ! 0)) = 2"
  using ex_missing_value by (simp add: ex_missing_merged_def ex_missing_account_def)

text \<open>
  Claim C10, at the same day. Both trades are wins, so the day has two winning and no
  losing trades, while the number of trades counted is 1: winning and losing trades
  together exceed the total.
\<close>

theorem wins_exceed_total:
  "load_and_preprocess_data parse_iso ex_fg ex_missing_account =
     Inr (ex_missing_merged, ex_missing_rows) \<and>
   length ex_missing_rows = 2 \<and>
   Winning_Trades (m_stats (ex_missing_merged ! 0)) = 2 \<and>
   Losing_Trades (m_stats (ex_missing_merged ! 0)) = 0 \<and>
   Total_Trades (m_stats (ex_missing_merged ! 0)) = 1"
  using ex_missing_value by (simp add: ex_missing_merged_def ex_missing_rows_def)

end
